theory Spec2Isabelle
  imports Complex_Main
begin

section \<open>Series reconciliation: the metric\_update handler of Dashboard.tsx\<close>

text \<open>
  The dashboard page keeps two pieces of React state that the stream handler updates:
  \<^verbatim>\<open>metrics\<close>, an array of \<^verbatim>\<open>MetricState\<close>, and \<^verbatim>\<open>metricsHistory\<close>, a
  \<^verbatim>\<open>Record<string, MetricDataPoint[]>\<close>. A \<^verbatim>\<open>Metric\<close> is the interface of
  services/api.ts; \<^verbatim>\<open>MetricState\<close> adds the optional \<^verbatim>\<open>previousValue\<close>.
  The fields \<^verbatim>\<open>id\<close> and \<^verbatim>\<open>value\<close> are called \<open>mid\<close> and \<open>mvalue\<close> here
  (and \<open>pvalue\<close> in a data point). A JavaScript number is modelled as a real: the
  handler only copies values, it never computes with them.
\<close>

datatype MetricType = gauge | counter | histogram

record Metric =
  mid :: nat
  name :: string
  mvalue :: real
  metric_type :: MetricType
  dashboard_id :: nat
  created_at :: string

record MetricState = Metric +
  previousValue :: "real option"

record MetricDataPoint =
  timestamp :: string
  pvalue :: real

text \<open>
  The history record is a plain JavaScript object, created by the literal \<^verbatim>\<open>{}\<close> or by
  an object literal with a spread. Such an object has its own properties and a
  prototype, and a property read \<^verbatim>\<open>prevHistory[name]\<close> that finds no own property
  continues along the prototype chain. The prototype is \<^verbatim>\<open>Object.prototype\<close>, unless
  the seed assigned to the name \<^verbatim>\<open>__proto__\<close>: that assignment runs the setter
  inherited from \<^verbatim>\<open>Object.prototype\<close>, which makes the assigned array the prototype
  of the record and creates no own property. Behind such an array come
  \<^verbatim>\<open>Array.prototype\<close> and \<^verbatim>\<open>Object.prototype\<close>.

  A value read from the record is \<^verbatim>\<open>undefined\<close>, an array of points, the
  \<^verbatim>\<open>length\<close> of the prototype array (a number), or something else that is truthy
  and not iterable: an inherited method, the object \<^verbatim>\<open>Object.prototype\<close> itself
  (what the getter of \<^verbatim>\<open>__proto__\<close> returns on an ordinary record), or a data
  point read through an index of the prototype array.
\<close>

datatype error = TypeError

datatype prototype = Object_prototype | Array_instance "MetricDataPoint list"

record history =
  own :: "string \<Rightarrow> MetricDataPoint list option"
  proto :: prototype

datatype jsvalue = Undefined | Points "MetricDataPoint list" | Length nat | Other

record dashboard =
  metrics :: "MetricState list"
  metricsHistory :: history

text \<open>The string-keyed properties of \<^verbatim>\<open>Object.prototype\<close> (with the accessors and
  methods that every browser adds) and of \<^verbatim>\<open>Array.prototype\<close> (ECMAScript 2023).\<close>

definition Object_prototype_names :: "string list" where
  "Object_prototype_names =
     [''constructor'', ''hasOwnProperty'', ''isPrototypeOf'', ''propertyIsEnumerable'',
      ''toLocaleString'', ''toString'', ''valueOf'', ''__proto__'',
      ''__defineGetter__'', ''__defineSetter__'', ''__lookupGetter__'', ''__lookupSetter__'']"

definition Array_prototype_names :: "string list" where
  "Array_prototype_names =
     [''at'', ''concat'', ''constructor'', ''copyWithin'', ''entries'', ''every'', ''fill'',
      ''filter'', ''find'', ''findIndex'', ''findLast'', ''findLastIndex'', ''flat'',
      ''flatMap'', ''forEach'', ''includes'', ''indexOf'', ''join'', ''keys'',
      ''lastIndexOf'', ''length'', ''map'', ''pop'', ''push'', ''reduce'', ''reduceRight'',
      ''reverse'', ''shift'', ''slice'', ''some'', ''sort'', ''splice'', ''toLocaleString'',
      ''toReversed'', ''toSorted'', ''toSpliced'', ''toString'', ''unshift'', ''values'',
      ''with'']"

text \<open>A number printed in decimal: the name of an array index, and later the dashboard
  id in a URL.\<close>

definition digit_char :: "nat \<Rightarrow> char" where
  "digit_char n = ''0123456789'' ! n"

fun string_of_nat :: "nat \<Rightarrow> string" where
  "string_of_nat n =
     (if n < 10 then [digit_char n] else string_of_nat (n div 10) @ [digit_char (n mod 10)])"

declare string_of_nat.simps [simp del]

text \<open>What a read finds along the prototype chain, and the read itself. On a record
  whose prototype is an array, the getter of \<^verbatim>\<open>__proto__\<close> returns that array.\<close>

definition inherited :: "prototype \<Rightarrow> string \<Rightarrow> jsvalue" where
  "inherited p k =
     (case p of
        Object_prototype \<Rightarrow> if k \<in> set Object_prototype_names then Other else Undefined
      | Array_instance xs \<Rightarrow>
          if k = ''__proto__'' then Points xs
          else if k = ''length'' then Length (length xs)
          else if k \<in> set (map string_of_nat [0..<length xs]) then Other
          else if k \<in> set Array_prototype_names \<or> k \<in> set Object_prototype_names then Other
          else Undefined)"

definition get_property :: "history \<Rightarrow> string \<Rightarrow> jsvalue" where
  "get_property h k = (case own h k of Some xs \<Rightarrow> Points xs | None \<Rightarrow> inherited (proto h) k)"

text \<open>\<^verbatim>\<open>...(v || [])\<close> inside an array literal: \<^verbatim>\<open>undefined\<close> and the number 0 are
  falsy and give the empty array, an array is spread, and any other value is truthy
  and not iterable, so the spread throws a \<^verbatim>\<open>TypeError\<close>.\<close>

definition spread_or_empty :: "jsvalue \<Rightarrow> error + MetricDataPoint list" where
  "spread_or_empty v =
     (case v of
        Undefined \<Rightarrow> Inr []
      | Points xs \<Rightarrow> Inr xs
      | Length n \<Rightarrow> if n = 0 then Inr [] else Inl TypeError
      | Other \<Rightarrow> Inl TypeError)"

text \<open>The assignment \<^verbatim>\<open>initialHistory[name] = v\<close> on a record with no own property
  \<^verbatim>\<open>__proto__\<close>: every inherited data property is writable, so the assignment creates
  or overwrites an own property, except for the name \<^verbatim>\<open>__proto__\<close>, where it sets
  the prototype.\<close>

definition assign :: "history \<Rightarrow> string \<Rightarrow> MetricDataPoint list \<Rightarrow> history" where
  "assign h k v =
     (if k = ''__proto__'' \<and> own h k = None then h\<lparr>proto := Array_instance v\<rparr>
      else h\<lparr>own := (own h)(k \<mapsto> v)\<rparr>)"

definition empty_object :: history where
  "empty_object = \<lparr>own = Map.empty, proto = Object_prototype\<rparr>"

text \<open>\<^verbatim>\<open>Array.prototype.findIndex\<close>: the first index whose element satisfies the
  predicate; \<open>None\<close> stands for the result \<^verbatim>\<open>-1\<close>.\<close>

fun findIndex :: "('a \<Rightarrow> bool) \<Rightarrow> 'a list \<Rightarrow> nat option" where
  "findIndex P [] = None"
| "findIndex P (x # xs) = (if P x then Some 0 else map_option Suc (findIndex P xs))"

text \<open>\<^verbatim>\<open>xs.slice(-n)\<close>: the last \<open>n\<close> elements, all of them when there are fewer.\<close>

definition slice_last :: "nat \<Rightarrow> 'a list \<Rightarrow> 'a list" where
  "slice_last n xs = drop (length xs - n) xs"

text \<open>A \<^verbatim>\<open>Metric\<close> stored as a \<^verbatim>\<open>MetricState\<close> (no \<^verbatim>\<open>previousValue\<close>), and the
  object literal \<^verbatim>\<open>{ ...updatedMetric, previousValue: v }\<close>.\<close>

definition as_state :: "Metric \<Rightarrow> MetricState" where
  "as_state m = \<lparr>mid = mid m, name = name m, mvalue = mvalue m, metric_type = metric_type m,
     dashboard_id = dashboard_id m, created_at = created_at m, previousValue = None\<rparr>"

definition with_previous :: "Metric \<Rightarrow> real \<Rightarrow> MetricState" where
  "with_previous m v = \<lparr>mid = mid m, name = name m, mvalue = mvalue m,
     metric_type = metric_type m, dashboard_id = dashboard_id m, created_at = created_at m,
     previousValue = Some v\<rparr>"

definition point_of :: "Metric \<Rightarrow> MetricDataPoint" where
  "point_of m = \<lparr>timestamp = created_at m, pvalue = mvalue m\<rparr>"

text \<open>The updater passed to \<^verbatim>\<open>setMetrics\<close> (Dashboard.tsx, lines 87--105).\<close>

definition setMetrics_updater :: "Metric \<Rightarrow> MetricState list \<Rightarrow> MetricState list" where
  "setMetrics_updater updatedMetric prevMetrics =
     (case findIndex (\<lambda>m. name m = name updatedMetric) prevMetrics of
        Some existingIndex \<Rightarrow>
          prevMetrics[existingIndex :=
            with_previous updatedMetric (mvalue (prevMetrics ! existingIndex))]
      | None \<Rightarrow> prevMetrics @ [as_state updatedMetric])"

text \<open>The updater passed to \<^verbatim>\<open>setMetricsHistory\<close> (lines 107--117). The object
  literal copies the own properties of \<^verbatim>\<open>prevHistory\<close> into a new record, whose
  prototype is \<^verbatim>\<open>Object.prototype\<close>, and defines the computed key as an own property
  (also when the key is \<^verbatim>\<open>__proto__\<close>). The value of that key reads
  \<^verbatim>\<open>prevHistory[name]\<close>, and the updater throws when the spread does.\<close>

definition setMetricsHistory_updater :: "Metric \<Rightarrow> history \<Rightarrow> error + history" where
  "setMetricsHistory_updater updatedMetric prevHistory =
     (case spread_or_empty (get_property prevHistory (name updatedMetric)) of
        Inl e \<Rightarrow> Inl e
      | Inr points \<Rightarrow>
          Inr \<lparr>own = (own prevHistory)(name updatedMetric \<mapsto>
                       slice_last 100 (points @ [point_of updatedMetric])),
               proto = Object_prototype\<rparr>)"

text \<open>One \<^verbatim>\<open>metric_update\<close> event applied to the page state. React runs both updaters
  at the next render, each on the latest state; when the history updater throws, the
  render fails and the page has no new state. A sequence of events stops at the first
  failure.\<close>

definition applyUpdate :: "dashboard \<Rightarrow> Metric \<Rightarrow> error + dashboard" where
  "applyUpdate d updatedMetric =
     (case setMetricsHistory_updater updatedMetric (metricsHistory d) of
        Inl e \<Rightarrow> Inl e
      | Inr newHistory \<Rightarrow>
          Inr \<lparr>metrics = setMetrics_updater updatedMetric (metrics d),
               metricsHistory = newHistory\<rparr>)"

fun applyUpdates :: "dashboard \<Rightarrow> Metric list \<Rightarrow> error + dashboard" where
  "applyUpdates d [] = Inr d"
| "applyUpdates d (u # us) =
     (case applyUpdate d u of Inl e \<Rightarrow> Inl e | Inr d' \<Rightarrow> applyUpdates d' us)"

text \<open>The snapshot seed of \<^verbatim>\<open>handleDashboardSelect\<close> (lines 59--69): the fetched
  metrics replace the table, and \<^verbatim>\<open>forEach\<close> assigns every name a one-point array
  (a later metric of the same name overwrites an earlier one).\<close>

definition initialHistory :: "Metric list \<Rightarrow> history" where
  "initialHistory initialMetrics =
     foldl (\<lambda>h metric. assign h (name metric) [point_of metric]) empty_object initialMetrics"

definition seed :: "Metric list \<Rightarrow> dashboard" where
  "seed initialMetrics =
     \<lparr>metrics = map as_state initialMetrics, metricsHistory = initialHistory initialMetrics\<rparr>"

text \<open>The points of series \<open>s\<close> among a sequence of updates, in arrival order, and the
  array stored under the own key \<open>s\<close>.\<close>

definition points_for :: "string \<Rightarrow> Metric list \<Rightarrow> MetricDataPoint list" where
  "points_for s us = map point_of (filter (\<lambda>u. name u = s) us)"

definition stored :: "history \<Rightarrow> string \<Rightarrow> MetricDataPoint list" where
  "stored h s = (case own h s of None \<Rightarrow> [] | Some ps \<Rightarrow> ps)"

text \<open>The entry of series \<open>s\<close> in the table, the one \<^verbatim>\<open>findIndex\<close> selects, and the
  table after a sequence of updates.\<close>

definition series :: "MetricState list \<Rightarrow> string \<Rightarrow> MetricState option" where
  "series ms s = map_option (\<lambda>i. ms ! i) (findIndex (\<lambda>m. name m = s) ms)"

definition applyMetrics :: "MetricState list \<Rightarrow> Metric list \<Rightarrow> MetricState list" where
  "applyMetrics ms us = foldl (\<lambda>ms u. setMetrics_updater u ms) ms us"

text \<open>A sample metric, for concrete instances: only name, value and timestamp vary.\<close>

definition mk_metric :: "string \<Rightarrow> real \<Rightarrow> string \<Rightarrow> Metric" where
  "mk_metric n v t = \<lparr>mid = 1, name = n, mvalue = v, metric_type = gauge, dashboard_id = 1,
     created_at = t\<rparr>"

section \<open>The connection manager: class WebSocketManager (services/websocket.ts)\<close>

text \<open>
  The class has six private fields: \<^verbatim>\<open>ws\<close>, \<^verbatim>\<open>url\<close>, \<^verbatim>\<open>token\<close>, \<^verbatim>\<open>retries\<close>,
  \<^verbatim>\<open>connectionState\<close> and \<^verbatim>\<open>onMessageCallback\<close>. Its methods also act on the
  browser: \<^verbatim>\<open>new WebSocket\<close> creates a transport object, \<^verbatim>\<open>setTimeout\<close> registers a
  timer, and the registered callback acts on the state of the consumer. The model keeps
  these in the same record: \<open>sockets\<close> holds every transport object created so far (a
  handle is an index into it, and \<open>ws\<close> holds a handle), \<open>timers\<close> the delays of the
  timers that are pending, \<open>effects\<close> the calls made to the browser in order, and
  \<open>consumer\<close> the state the callback updates. The four handlers that \<^verbatim>\<open>_doConnect\<close>
  attaches to a transport object are closures over \<^verbatim>\<open>this\<close> alone: they read and write
  the fields of the manager and never mention the object they are attached to.
\<close>

datatype ConnectionState = Connecting | Connected | Disconnected | Error

record WebSocketMessage =
  mtype :: string
  data :: Metric

datatype ReadyState = CONNECTING | OPEN | CLOSING | CLOSED

record WebSocket =
  ws_url :: string
  readyState :: ReadyState

text \<open>The text of an inbound frame, by what \<^verbatim>\<open>JSON.parse\<close> makes of it: it throws, or
  it returns a message.\<close>

datatype frame = Unparsable | Parsable WebSocketMessage

fun JSON_parse :: "frame \<Rightarrow> WebSocketMessage option" where
  "JSON_parse Unparsable = None"
| "JSON_parse (Parsable message) = Some message"

datatype effect = NewWebSocket string | SetTimeout nat | CloseCall nat nat

definition MAX_RETRIES :: nat where
  "MAX_RETRIES = 5"

definition RETRY_INTERVAL_MS :: nat where
  "RETRY_INTERVAL_MS = 1000"

record 'c world =
  ws :: "nat option"
  url :: "string option"
  token :: "string option"
  retries :: nat
  connectionState :: ConnectionState
  onMessageCallback :: "(WebSocketMessage \<Rightarrow> 'c \<Rightarrow> 'c) option"
  sockets :: "WebSocket list"
  timers :: "nat list"
  effects :: "effect list"
  consumer :: 'c

text \<open>A freshly constructed manager, in a browser with no transport object and no timer.\<close>

definition fresh :: "'c \<Rightarrow> 'c world" where
  "fresh c = \<lparr>ws = None, url = None, token = None, retries = 0,
     connectionState = Disconnected, onMessageCallback = None,
     sockets = [], timers = [], effects = [], consumer = c\<rparr>"

definition setState :: "ConnectionState \<Rightarrow> 'c world \<Rightarrow> 'c world" where
  "setState state w = w\<lparr>connectionState := state\<rparr>"

text \<open>The URL of a dashboard: the id is printed in decimal in the template string.\<close>

definition dashboard_url :: "nat \<Rightarrow> string" where
  "dashboard_url dashboardId =
     ''ws://localhost:8000/api/v1/ws/dashboard/'' @ string_of_nat dashboardId"

text \<open>\<^verbatim>\<open>!this.url\<close>: \<^verbatim>\<open>null\<close> and the empty string are falsy.\<close>

definition falsy :: "string option \<Rightarrow> bool" where
  "falsy s = (case s of None \<Rightarrow> True | Some t \<Rightarrow> t = [])"

text \<open>\<^verbatim>\<open>this.ws && this.ws.readyState === WebSocket.OPEN\<close>.\<close>

definition ready :: "'c world \<Rightarrow> nat \<Rightarrow> ReadyState option" where
  "ready w i = (if i < length (sockets w) then Some (readyState (sockets w ! i)) else None)"

definition set_ready :: "nat \<Rightarrow> ReadyState \<Rightarrow> 'c world \<Rightarrow> 'c world" where
  "set_ready i r w = w\<lparr>sockets := (sockets w)[i := (sockets w ! i)\<lparr>readyState := r\<rparr>]\<rparr>"

definition ws_is_open :: "'c world \<Rightarrow> bool" where
  "ws_is_open w = (case ws w of None \<Rightarrow> False | Some i \<Rightarrow> ready w i = Some OPEN)"

text \<open>\<^verbatim>\<open>_doConnect\<close> (lines 65--109): the guard, then a new transport object in state
  \<^verbatim>\<open>CONNECTING\<close> that becomes \<^verbatim>\<open>this.ws\<close>. The object that \<^verbatim>\<open>this.ws\<close> held before
  is neither closed nor detached from its handlers.\<close>

definition doConnect :: "'c world \<Rightarrow> 'c world" where
  "doConnect w =
     (if falsy (url w) \<or> falsy (token w) then setState Error w
      else
        (let fullUrl = the (url w) @ ''?token='' @ the (token w)
         in w\<lparr>ws := Some (length (sockets w)),
              sockets := sockets w @ [\<lparr>ws_url = fullUrl, readyState = CONNECTING\<rparr>],
              effects := effects w @ [NewWebSocket fullUrl]\<rparr>))"

text \<open>\<^verbatim>\<open>connect\<close> (lines 52--63).\<close>

definition connect :: "nat \<Rightarrow> string \<Rightarrow> 'c world \<Rightarrow> 'c world" where
  "connect dashboardId tok w =
     (if ws_is_open w then w
      else doConnect (setState Connecting
             (w\<lparr>url := Some (dashboard_url dashboardId), token := Some tok, retries := 0\<rparr>)))"

text \<open>The handlers (lines 75--108). In \<^verbatim>\<open>onmessage\<close> the \<^verbatim>\<open>catch\<close> branch only logs
  to the console.\<close>

definition onopen :: "'c world \<Rightarrow> 'c world" where
  "onopen w = (setState Connected w)\<lparr>retries := 0\<rparr>"

definition onmessage :: "frame \<Rightarrow> 'c world \<Rightarrow> 'c world" where
  "onmessage d w =
     (case JSON_parse d of
        None \<Rightarrow> w
      | Some message \<Rightarrow>
          (case onMessageCallback w of
             None \<Rightarrow> w
           | Some callback \<Rightarrow> w\<lparr>consumer := callback message (consumer w)\<rparr>))"

definition onclose :: "nat \<Rightarrow> 'c world \<Rightarrow> 'c world" where
  "onclose code w =
     (if code \<noteq> 1000 \<and> retries w < MAX_RETRIES then
        (let r = retries w + 1; delay = 2 ^ r * RETRY_INTERVAL_MS
         in setState Connecting
              (w\<lparr>retries := r, timers := timers w @ [delay],
                 effects := effects w @ [SetTimeout delay]\<rparr>))
      else setState Disconnected w)"

definition onerror :: "'c world \<Rightarrow> 'c world" where
  "onerror w = setState Error w"

text \<open>The browser's \<^verbatim>\<open>WebSocket.close\<close>: an object that is connecting or open starts
  closing; one that is closing or closed is left alone.\<close>

definition ws_close :: "nat \<Rightarrow> nat \<Rightarrow> 'c world \<Rightarrow> 'c world" where
  "ws_close i code w =
     (let w' = w\<lparr>effects := effects w @ [CloseCall i code]\<rparr>
      in if ready w i = Some CONNECTING \<or> ready w i = Some OPEN
         then set_ready i CLOSING w' else w')"

text \<open>\<^verbatim>\<open>disconnect\<close> (lines 111--118) and \<^verbatim>\<open>onMessage\<close> (lines 120--122).\<close>

definition disconnect :: "'c world \<Rightarrow> 'c world" where
  "disconnect w =
     setState Disconnected
       (case ws w of
          Some i \<Rightarrow> (ws_close i 1000 (w\<lparr>retries := MAX_RETRIES\<rparr>))\<lparr>ws := None\<rparr>
        | None \<Rightarrow> w)"

definition onMessage :: "(WebSocketMessage \<Rightarrow> 'c \<Rightarrow> 'c) \<Rightarrow> 'c world \<Rightarrow> 'c world" where
  "onMessage callback w = w\<lparr>onMessageCallback := Some callback\<rparr>"

text \<open>
  What can happen to the manager, one task of the event loop at a time: a call of one
  of its public methods, an event of a transport object, or a pending timer firing.
  The browser fires \<^verbatim>\<open>open\<close> on a connecting object, \<^verbatim>\<open>message\<close> on an open one,
  \<^verbatim>\<open>error\<close> and \<^verbatim>\<open>close\<close> on one that is not yet closed; a close event carries its
  code. An event the browser cannot produce in the current state has no successor.
\<close>

datatype 'c event =
    Connect nat string
  | Disconnect
  | OnMessage "WebSocketMessage \<Rightarrow> 'c \<Rightarrow> 'c"
  | WsOpen nat
  | WsMessage nat frame
  | WsError nat
  | WsClose nat nat
  | Timeout nat

definition live :: "'c world \<Rightarrow> nat \<Rightarrow> bool" where
  "live w i = (ready w i = Some CONNECTING \<or> ready w i = Some OPEN \<or> ready w i = Some CLOSING)"

fun step :: "'c world \<Rightarrow> 'c event \<Rightarrow> 'c world option" where
  "step w (Connect dashboardId tok) = Some (connect dashboardId tok w)"
| "step w Disconnect = Some (disconnect w)"
| "step w (OnMessage callback) = Some (onMessage callback w)"
| "step w (WsOpen i) =
     (if ready w i = Some CONNECTING then Some (onopen (set_ready i OPEN w)) else None)"
| "step w (WsMessage i d) =
     (if ready w i = Some OPEN then Some (onmessage d w) else None)"
| "step w (WsError i) = (if live w i then Some (onerror w) else None)"
| "step w (WsClose i code) =
     (if live w i then Some (onclose code (set_ready i CLOSED w)) else None)"
| "step w (Timeout k) =
     (if k < length (timers w)
      then Some (doConnect (w\<lparr>timers := take k (timers w) @ drop (Suc k) (timers w)\<rparr>))
      else None)"

fun run :: "'c world \<Rightarrow> 'c event list \<Rightarrow> 'c world option" where
  "run w [] = Some w"
| "run w (e # es) = (case step w e of None \<Rightarrow> None | Some w' \<Rightarrow> run w' es)"

text \<open>The callback that Dashboard.tsx registers (lines 81--119). It queues the two
  updaters. The consumer state is the page: its current state, or the failure of a
  render; once a render has failed the component is unmounted and later updates are
  ignored.\<close>

definition dashboard_callback ::
  "WebSocketMessage \<Rightarrow> error + dashboard \<Rightarrow> error + dashboard" where
  "dashboard_callback message page =
     (if mtype message = ''metric_update''
      then (case page of Inl e \<Rightarrow> Inl e | Inr d \<Rightarrow> applyUpdate d (data message))
      else page)"

text \<open>The delays of the timers registered so far, in order.\<close>

fun scheduled :: "effect list \<Rightarrow> nat list" where
  "scheduled [] = []"
| "scheduled (SetTimeout delay # es) = delay # scheduled es"
| "scheduled (e # es) = scheduled es"

text \<open>The URLs of the transports opened so far, in order, and the calls of
  \<^verbatim>\<open>connect\<close> that carry a credential.\<close>

fun opened :: "effect list \<Rightarrow> string list" where
  "opened [] = []"
| "opened (NewWebSocket u # es) = u # opened es"
| "opened (e # es) = opened es"

fun valid_connect :: "'c event \<Rightarrow> bool" where
  "valid_connect (Connect dashboardId tok) = (tok \<noteq> [])"
| "valid_connect e = False"

text \<open>A sample state for concrete instances: the manager after \<^verbatim>\<open>connect(1, "tok")\<close>
  on a fresh instance and the open event of its transport, with a given consumer state
  and callback registration.\<close>

definition sample_connected :: "'c \<Rightarrow> (WebSocketMessage \<Rightarrow> 'c \<Rightarrow> 'c) option \<Rightarrow> 'c world" where
  "sample_connected c cb =
     \<lparr>ws = Some 0, url = Some ''ws://localhost:8000/api/v1/ws/dashboard/1'',
      token = Some ''tok'', retries = 0, connectionState = Connected,
      onMessageCallback = cb,
      sockets = [\<lparr>ws_url = ''ws://localhost:8000/api/v1/ws/dashboard/1?token=tok'',
                  readyState = OPEN\<rparr>],
      timers = [],
      effects = [NewWebSocket ''ws://localhost:8000/api/v1/ws/dashboard/1?token=tok''],
      consumer = c\<rparr>"

section \<open>Properties of the reconciliation\<close>

lemmas history_defs = applyUpdate_def setMetricsHistory_updater_def spread_or_empty_def
  get_property_def inherited_def Object_prototype_names_def Array_prototype_names_def
  seed_def initialHistory_def assign_def empty_object_def mk_metric_def point_of_def
  slice_last_def string_of_nat.simps digit_char_def

lemma slice_last_length: "length (slice_last n xs) \<le> n"
  by (simp add: slice_last_def)

lemma slice_last_snoc: "slice_last n (slice_last n xs @ [x]) = slice_last n (xs @ [x])"
  by (cases "length xs \<le> n") (auto simp: slice_last_def Suc_diff_le)

lemma applyUpdates_append:
  "applyUpdates d (us @ vs) =
     (case applyUpdates d us of Inl e \<Rightarrow> Inl e | Inr d' \<Rightarrow> applyUpdates d' vs)"
  by (induction us arbitrary: d) (auto split: sum.splits)

lemma metrics_applyUpdate:
  "applyUpdate d u = Inr d' \<Longrightarrow> metrics d' = setMetrics_updater u (metrics d)"
  by (auto simp: applyUpdate_def split: sum.splits)

lemma metrics_applyUpdates:
  "applyUpdates d us = Inr d' \<Longrightarrow> metrics d' = applyMetrics (metrics d) us"
proof (induction us arbitrary: d)
  case Nil
  then show ?case by (simp add: applyMetrics_def)
next
  case (Cons u us)
  from Cons.prems obtain d1 where d1: "applyUpdate d u = Inr d1" "applyUpdates d1 us = Inr d'"
    by (auto split: sum.splits)
  from Cons.IH[OF d1(2)] metrics_applyUpdate[OF d1(1)] show ?case
    by (simp add: applyMetrics_def)
qed

lemma proto_name_listed: "''__proto__'' \<in> set Object_prototype_names"
  by (simp add: Object_prototype_names_def)

lemma updater_plain:
  assumes "proto h = Object_prototype" and "name u \<notin> set Object_prototype_names"
  shows "setMetricsHistory_updater u h =
     Inr \<lparr>own = (own h)(name u \<mapsto> slice_last 100 (stored h (name u) @ [point_of u])),
          proto = Object_prototype\<rparr>"
  using assms
  by (simp add: setMetricsHistory_updater_def get_property_def inherited_def
      spread_or_empty_def stored_def split: option.splits)

lemma applyUpdate_plain:
  assumes "proto (metricsHistory d) = Object_prototype"
    and "name u \<notin> set Object_prototype_names"
  shows "\<exists>d'. applyUpdate d u = Inr d' \<and> proto (metricsHistory d') = Object_prototype \<and>
           stored (metricsHistory d') s =
             (if name u = s
              then slice_last 100 (stored (metricsHistory d) s @ [point_of u])
              else stored (metricsHistory d) s)"
  using updater_plain[OF assms] by (simp add: applyUpdate_def stored_def)

lemma applyUpdates_plain:
  assumes "proto (metricsHistory d) = Object_prototype"
    and "list_all (\<lambda>u. name u \<notin> set Object_prototype_names) us"
  shows "\<exists>d'. applyUpdates d us = Inr d' \<and> proto (metricsHistory d') = Object_prototype \<and>
           stored (metricsHistory d') s =
             (if filter (\<lambda>u. name u = s) us = [] then stored (metricsHistory d) s
              else slice_last 100 (stored (metricsHistory d) s @ points_for s us))"
  using assms(2)
proof (induction us rule: rev_induct)
  case Nil
  with assms(1) show ?case by simp
next
  case (snoc u us)
  then obtain d1 where d1: "applyUpdates d us = Inr d1"
      "proto (metricsHistory d1) = Object_prototype"
      "stored (metricsHistory d1) s =
         (if filter (\<lambda>u. name u = s) us = [] then stored (metricsHistory d) s
          else slice_last 100 (stored (metricsHistory d) s @ points_for s us))"
    by auto
  from snoc.prems have u: "name u \<notin> set Object_prototype_names" by simp
  from applyUpdate_plain[OF d1(2) u, of s] obtain d2 where
    d2: "applyUpdate d1 u = Inr d2" "proto (metricsHistory d2) = Object_prototype"
      "stored (metricsHistory d2) s =
         (if name u = s then slice_last 100 (stored (metricsHistory d1) s @ [point_of u])
          else stored (metricsHistory d1) s)"
    by blast
  have "applyUpdates d (us @ [u]) = Inr d2"
    by (simp add: applyUpdates_append d1(1) d2(1))
  with d2 d1(3) show ?case
    by (auto simp: points_for_def slice_last_snoc)
qed

lemma seed_plain:
  assumes "list_all (\<lambda>u. name u \<notin> set Object_prototype_names) init"
  shows "proto (metricsHistory (seed init)) = Object_prototype \<and>
         length (stored (metricsHistory (seed init)) s) \<le> 1"
  using assms unfolding seed_def initialHistory_def
proof (induction init rule: rev_induct)
  case Nil
  then show ?case by (simp add: empty_object_def stored_def)
next
  case (snoc u init)
  then have "name u \<noteq> ''__proto__''"
    using proto_name_listed by auto
  with snoc show ?case
    by (auto simp: assign_def stored_def)
qed

lemma findIndex_None: "findIndex P xs = None \<longleftrightarrow> (\<forall>x\<in>set xs. \<not> P x)"
  by (induction xs) auto

lemma findIndex_Some:
  "findIndex P xs = Some i \<Longrightarrow> i < length xs \<and> P (xs ! i) \<and> (\<forall>j<i. \<not> P (xs ! j))"
proof (induction xs arbitrary: i)
  case Nil
  then show ?case by simp
next
  case (Cons x xs)
  show ?case
  proof (cases "P x")
    case True
    with Cons.prems show ?thesis by simp
  next
    case False
    with Cons.prems obtain k where k: "findIndex P xs = Some k" "i = Suc k"
      by auto
    from Cons.IH[OF k(1)] False k(2) show ?thesis
      by (auto simp: less_Suc_eq_0_disj)
  qed
qed

lemma findIndex_update:
  "i < length xs \<Longrightarrow> P y = P (xs ! i) \<Longrightarrow> findIndex P (xs[i := y]) = findIndex P xs"
proof (induction xs arbitrary: i)
  case Nil
  then show ?case by simp
next
  case (Cons x xs)
  then show ?case by (cases i) auto
qed

lemma findIndex_snoc:
  "findIndex P (xs @ [y]) =
     (case findIndex P xs of Some i \<Rightarrow> Some i
      | None \<Rightarrow> if P y then Some (length xs) else None)"
  by (induction xs) (auto split: option.splits)

lemma series_updated:
  "series (setMetrics_updater u ms) (name u) =
     Some (case series ms (name u) of None \<Rightarrow> as_state u
           | Some m \<Rightarrow> with_previous u (mvalue m))"
proof (cases "findIndex (\<lambda>m. name m = name u) ms")
  case None
  then show ?thesis
    by (simp add: series_def setMetrics_updater_def findIndex_snoc as_state_def)
next
  case (Some i)
  from findIndex_Some[OF Some] have i: "i < length ms" "name (ms ! i) = name u"
    by auto
  have "findIndex (\<lambda>m. name m = name u)
          (ms[i := with_previous u (mvalue (ms ! i))]) = Some i"
    using i Some by (simp add: findIndex_update with_previous_def)
  with Some i show ?thesis
    by (simp add: series_def setMetrics_updater_def)
qed

lemma series_other:
  assumes "s \<noteq> name u"
  shows "series (setMetrics_updater u ms) s = series ms s"
proof (cases "findIndex (\<lambda>m. name m = name u) ms")
  case None
  with assms show ?thesis
    by (auto simp: series_def setMetrics_updater_def findIndex_snoc as_state_def nth_append
        split: option.splits dest: findIndex_Some)
next
  case (Some i)
  from findIndex_Some[OF Some] have i: "i < length ms" "name (ms ! i) = name u"
    by auto
  let ?y = "with_previous u (mvalue (ms ! i))"
  have fi: "findIndex (\<lambda>m. name m = s) (ms[i := ?y]) = findIndex (\<lambda>m. name m = s) ms"
    using i assms by (intro findIndex_update) (auto simp: with_previous_def)
  show ?thesis
  proof (cases "findIndex (\<lambda>m. name m = s) ms")
    case None
    with fi Some show ?thesis by (simp add: series_def setMetrics_updater_def)
  next
    case (Some j)
    from findIndex_Some[OF Some] i assms have "j \<noteq> i" by auto
    with fi Some \<open>findIndex (\<lambda>m. name m = name u) ms = Some i\<close> show ?thesis
      by (simp add: series_def setMetrics_updater_def)
  qed
qed

lemma series_applyMetrics_other:
  "list_all (\<lambda>u. name u \<noteq> s) us \<Longrightarrow> series (applyMetrics ms us) s = series ms s"
  unfolding applyMetrics_def
  by (induction us rule: rev_induct) (auto simp: series_other)

lemma applyMetrics_snoc: "applyMetrics ms (us @ [u]) = setMetrics_updater u (applyMetrics ms us)"
  by (simp add: applyMetrics_def)

lemma applyMetrics_append: "applyMetrics ms (us @ vs) = applyMetrics (applyMetrics ms us) vs"
  by (simp add: applyMetrics_def)

text \<open>
  Claim C1 at a concrete input. On an empty table, a read of \<^verbatim>\<open>constructor\<close> finds the
  method inherited from \<^verbatim>\<open>Object.prototype\<close>, which is truthy and not iterable: the
  history updater of an update named \<^verbatim>\<open>constructor\<close> throws, and no history is kept
  for that series. The same happens when the update comes after a seed and updates of
  other series.
\<close>

theorem inherited_name_update_throws:
  "get_property (metricsHistory (seed [])) ''constructor'' = Other \<and>
   applyUpdate (seed []) (mk_metric ''constructor'' 1 ''T0'') = Inl TypeError \<and>
   applyUpdates (seed [mk_metric ''cpu'' 10 ''T0''])
     [mk_metric ''cpu'' 15 ''T1'', mk_metric ''constructor'' 1 ''T2''] = Inl TypeError"
  by (simp add: history_defs)

text \<open>Where the bounded history holds: when no seeded and no updated name is a property
  name of \<^verbatim>\<open>Object.prototype\<close>, every update succeeds and the array stored for a
  series is the last 100 (all, when there are fewer) of its points in arrival order,
  the seed's point first.\<close>

lemma history_bounded_fifo_plain:
  assumes "list_all (\<lambda>u. name u \<notin> set Object_prototype_names) init"
    and "list_all (\<lambda>u. name u \<notin> set Object_prototype_names) us"
  shows "\<exists>d'. applyUpdates (seed init) us = Inr d' \<and>
           length (stored (metricsHistory d') s) \<le> 100 \<and>
           stored (metricsHistory d') s =
             (let arrived = stored (metricsHistory (seed init)) s @ points_for s us
              in drop (length arrived - 100) arrived)"
proof -
  from seed_plain[OF assms(1), of s]
  have p: "proto (metricsHistory (seed init)) = Object_prototype"
    and l: "length (stored (metricsHistory (seed init)) s) \<le> 1"
    by auto
  from applyUpdates_plain[OF p assms(2), of s] obtain d' where
    d': "applyUpdates (seed init) us = Inr d'"
      "stored (metricsHistory d') s =
         (if filter (\<lambda>u. name u = s) us = [] then stored (metricsHistory (seed init)) s
          else slice_last 100 (stored (metricsHistory (seed init)) s @ points_for s us))"
    by blast
  show ?thesis
  proof (cases "filter (\<lambda>u. name u = s) us = []")
    case True
    with d' l show ?thesis by (simp add: points_for_def)
  next
    case False
    with d' show ?thesis
      using slice_last_length[of 100]
      by (simp add: slice_last_def Let_def)
  qed
qed

text \<open>
  Claim C4. Let \<open>u1\<close> and \<open>u2\<close> be two successive updates of series \<open>s\<close> (the
  (n-1)-th and the n-th), with any updates of other series between them and any
  updates at all before them. After \<open>u1\<close> the current value of \<open>s\<close> is the value of
  \<open>u1\<close>, and after \<open>u2\<close> the previous value of \<open>s\<close> is that same value. In one
  step: the previous value after an update is the current value the series had before
  it, and absent when the series was not in the table (a first observation from the
  stream). Every entry of a freshly seeded table has no previous value. This is stated
  for the table that the \<^verbatim>\<open>setMetrics\<close> updater computes, and again for the page
  states that the updates produce.
\<close>

theorem previousValue_is_prior_currentValue:
  assumes "name u1 = s" and "name u2 = s" and "list_all (\<lambda>u. name u \<noteq> s) between"
  shows "map_option mvalue (series (applyMetrics ms (pre @ [u1])) s) = Some (mvalue u1) \<and>
         map_option previousValue (series (applyMetrics ms (pre @ [u1] @ between @ [u2])) s)
           = Some (Some (mvalue u1)) \<and>
         map_option previousValue (series (setMetrics_updater u1 ms) s)
           = Some (map_option mvalue (series ms s)) \<and>
         map previousValue (metrics (seed init)) = replicate (length init) None \<and>
         (\<forall>d d1 d2. applyUpdates d (pre @ [u1]) = Inr d1 \<and>
              applyUpdates d (pre @ [u1] @ between @ [u2]) = Inr d2 \<longrightarrow>
            map_option mvalue (series (metrics d1) s) = Some (mvalue u1) \<and>
            map_option previousValue (series (metrics d2) s) = Some (Some (mvalue u1)))"
proof -
  have step: "series (setMetrics_updater u e) (name u) =
      Some (case series e (name u) of None \<Rightarrow> as_state u
            | Some m \<Rightarrow> with_previous u (mvalue m))" for e u
    by (rule series_updated)
  have a: "map_option mvalue (series (applyMetrics e (pre @ [u1])) s) = Some (mvalue u1)" for e
    using assms(1) step[of u1 "applyMetrics e pre"]
    by (auto simp: applyMetrics_snoc as_state_def with_previous_def split: option.splits)
  have b: "map_option previousValue
      (series (applyMetrics e (pre @ [u1] @ between @ [u2])) s) = Some (Some (mvalue u1))" for e
  proof -
    let ?m1 = "applyMetrics e (pre @ [u1])"
    have btw: "series (applyMetrics ?m1 between) s = series ?m1 s"
      using assms(3) by (rule series_applyMetrics_other)
    have eq: "applyMetrics e (pre @ [u1] @ between @ [u2]) =
        setMetrics_updater u2 (applyMetrics ?m1 between)"
      by (simp add: applyMetrics_def)
    show ?thesis
      unfolding eq
      using assms(2) step[of u2 "applyMetrics ?m1 between"] btw a[of e]
      by (auto simp: as_state_def with_previous_def split: option.splits)
  qed
  have c: "map_option previousValue (series (setMetrics_updater u1 ms) s)
      = Some (map_option mvalue (series ms s))"
    using assms(1) step[of u1 ms]
    by (auto simp: as_state_def with_previous_def split: option.splits)
  have e: "map previousValue (metrics (seed init)) = replicate (length init) None"
    by (induction init) (auto simp: seed_def as_state_def)
  have page: "map_option mvalue (series (metrics d1) s) = Some (mvalue u1) \<and>
      map_option previousValue (series (metrics d2) s) = Some (Some (mvalue u1))"
    if "applyUpdates d (pre @ [u1]) = Inr d1"
      "applyUpdates d (pre @ [u1] @ between @ [u2]) = Inr d2" for d d1 d2
    using metrics_applyUpdates[OF that(1)] metrics_applyUpdates[OF that(2)]
      a[of "metrics d"] b[of "metrics d"]
    by simp
  from a[of ms] b[of ms] c e page show ?thesis by blast
qed

theorem previousValue_is_prior_currentValue_witness:
  "map_option mvalue (series (applyMetrics (metrics (seed [mk_metric ''cpu'' 10 ''T0'']))
      [mk_metric ''cpu'' 15 ''T1'']) ''cpu'') = Some 15 \<and>
   map_option previousValue (series (applyMetrics (metrics (seed [mk_metric ''cpu'' 10 ''T0'']))
      [mk_metric ''cpu'' 15 ''T1'', mk_metric ''mem'' 42 ''T2'', mk_metric ''cpu'' 20 ''T3''])
      ''cpu'') = Some (Some 15) \<and>
   map_option previousValue (series (setMetrics_updater (mk_metric ''cpu'' 15 ''T1'')
      (metrics (seed [mk_metric ''cpu'' 10 ''T0'']))) ''cpu'') = Some (Some 10) \<and>
   (\<exists>d2. applyUpdates (seed [mk_metric ''cpu'' 10 ''T0''])
       [mk_metric ''cpu'' 15 ''T1'', mk_metric ''mem'' 42 ''T2'', mk_metric ''cpu'' 20 ''T3'']
         = Inr d2 \<and>
      map_option previousValue (series (metrics d2) ''cpu'') = Some (Some 15))"
proof -
  note t = previousValue_is_prior_currentValue
    [of "mk_metric ''cpu'' 15 ''T1''" "''cpu''" "mk_metric ''cpu'' 20 ''T3''"
        "[mk_metric ''mem'' 42 ''T2'']" "metrics (seed [mk_metric ''cpu'' 10 ''T0''])" "[]"]
  have h: "name (mk_metric ''cpu'' 15 ''T1'') = ''cpu''"
    "name (mk_metric ''cpu'' 20 ''T3'') = ''cpu''"
    "list_all (\<lambda>u. name u \<noteq> ''cpu'') [mk_metric ''mem'' 42 ''T2'']"
    by (simp_all add: mk_metric_def)
  obtain d1 where d1: "applyUpdates (seed [mk_metric ''cpu'' 10 ''T0''])
      ([] @ [mk_metric ''cpu'' 15 ''T1'']) = Inr d1"
    by (simp add: history_defs)
  obtain d2 where d2: "applyUpdates (seed [mk_metric ''cpu'' 10 ''T0''])
      ([] @ [mk_metric ''cpu'' 15 ''T1''] @ [mk_metric ''mem'' 42 ''T2'']
         @ [mk_metric ''cpu'' 20 ''T3'']) = Inr d2"
    by (simp add: history_defs)
  from t[OF h] d1 d2
  have "map_option previousValue (series (metrics d2) ''cpu'') = Some (Some (mvalue (mk_metric ''cpu'' 15 ''T1'')))"
    by blast
  with d2 have page: "\<exists>d2. applyUpdates (seed [mk_metric ''cpu'' 10 ''T0''])
       [mk_metric ''cpu'' 15 ''T1'', mk_metric ''mem'' 42 ''T2'', mk_metric ''cpu'' 20 ''T3'']
         = Inr d2 \<and>
      map_option previousValue (series (metrics d2) ''cpu'') = Some (Some 15)"
    by (auto simp: mk_metric_def)
  from t[OF h] have "map_option mvalue (series (applyMetrics (metrics (seed [mk_metric ''cpu'' 10 ''T0'']))
      ([] @ [mk_metric ''cpu'' 15 ''T1''])) ''cpu'') = Some (mvalue (mk_metric ''cpu'' 15 ''T1'')) \<and>
   map_option previousValue (series (applyMetrics (metrics (seed [mk_metric ''cpu'' 10 ''T0'']))
      ([] @ [mk_metric ''cpu'' 15 ''T1''] @ [mk_metric ''mem'' 42 ''T2''] @ [mk_metric ''cpu'' 20 ''T3'']))
      ''cpu'') = Some (Some (mvalue (mk_metric ''cpu'' 15 ''T1''))) \<and>
   map_option previousValue (series (setMetrics_updater (mk_metric ''cpu'' 15 ''T1'')
      (metrics (seed [mk_metric ''cpu'' 10 ''T0'']))) ''cpu'')
       = Some (map_option mvalue (series (metrics (seed [mk_metric ''cpu'' 10 ''T0''])) ''cpu''))"
    by blast
  then have "map_option mvalue (series (applyMetrics (metrics (seed [mk_metric ''cpu'' 10 ''T0'']))
      [mk_metric ''cpu'' 15 ''T1'']) ''cpu'') = Some 15 \<and>
   map_option previousValue (series (applyMetrics (metrics (seed [mk_metric ''cpu'' 10 ''T0'']))
      [mk_metric ''cpu'' 15 ''T1'', mk_metric ''mem'' 42 ''T2'', mk_metric ''cpu'' 20 ''T3''])
      ''cpu'') = Some (Some 15) \<and>
   map_option previousValue (series (setMetrics_updater (mk_metric ''cpu'' 15 ''T1'')
      (metrics (seed [mk_metric ''cpu'' 10 ''T0'']))) ''cpu'') = Some (Some 10)"
    by (simp add: mk_metric_def seed_def series_def as_state_def)
  with page show ?thesis by blast
qed

text \<open>
  Claim C10 at a concrete input. The snapshot holds a metric named \<^verbatim>\<open>__proto__\<close>:
  the seed makes its one-point array the prototype of the history record, and a read
  of \<^verbatim>\<open>__proto__\<close> returns that array. An update of \<^verbatim>\<open>cpu\<close> then builds a new
  record from the own properties alone, and the same read returns
  \<^verbatim>\<open>Object.prototype\<close>: the history of \<^verbatim>\<open>__proto__\<close> is gone, by an update of
  another series.
\<close>

theorem proto_history_dropped:
  "get_property (metricsHistory (seed [mk_metric ''__proto__'' 42 ''T0''])) ''__proto__''
     = Points [\<lparr>timestamp = ''T0'', pvalue = 42\<rparr>] \<and>
   map_sum id (\<lambda>d. get_property (metricsHistory d) ''__proto__'')
     (applyUpdate (seed [mk_metric ''__proto__'' 42 ''T0'']) (mk_metric ''cpu'' 10 ''T1''))
     = Inr Other"
  by (simp add: history_defs)

text \<open>Where the frame holds: an update that succeeds leaves every other own key of the
  history and every other entry of the table as it was, keeps the order of names, and
  appends an unseen name at the end; on a record whose prototype is
  \<^verbatim>\<open>Object.prototype\<close> every read of another name is unchanged as well.\<close>

lemma update_frame_plain:
  assumes "name u = s" and "applyUpdate d u = Inr d'"
  shows "(\<forall>k. k \<noteq> s \<longrightarrow> own (metricsHistory d') k = own (metricsHistory d) k) \<and>
         (proto (metricsHistory d) = Object_prototype \<longrightarrow>
            (\<forall>k. k \<noteq> s \<longrightarrow>
               get_property (metricsHistory d') k = get_property (metricsHistory d) k)) \<and>
         (\<forall>k. k \<noteq> s \<longrightarrow> series (metrics d') k = series (metrics d) k) \<and>
         (\<forall>i<length (metrics d). name (metrics d ! i) \<noteq> s \<longrightarrow>
            metrics d' ! i = metrics d ! i) \<and>
         map name (metrics d') =
           (case series (metrics d) s of None \<Rightarrow> map name (metrics d) @ [s]
            | Some m \<Rightarrow> map name (metrics d)) \<and>
         (series (metrics d) s = None \<longrightarrow> metrics d' = metrics d @ [as_state u])"
proof -
  from assms(2) obtain h where h: "setMetricsHistory_updater u (metricsHistory d) = Inr h"
      and d': "d' = \<lparr>metrics = setMetrics_updater u (metrics d), metricsHistory = h\<rparr>"
    by (auto simp: applyUpdate_def split: sum.splits)
  from h have hh: "own h = (own (metricsHistory d))(name u \<mapsto> the (own h (name u)))"
      "proto h = Object_prototype"
    by (auto simp: setMetricsHistory_updater_def split: sum.splits)
  have hist: "\<forall>k. k \<noteq> s \<longrightarrow> own (metricsHistory d') k = own (metricsHistory d) k"
    using assms(1) hh(1) by (simp add: d') (metis fun_upd_other)
  have rd: "proto (metricsHistory d) = Object_prototype \<longrightarrow>
      (\<forall>k. k \<noteq> s \<longrightarrow>
         get_property (metricsHistory d') k = get_property (metricsHistory d) k)"
    using hist hh(2) by (auto simp: get_property_def d' split: option.splits)
  have ser: "\<forall>k. k \<noteq> s \<longrightarrow> series (metrics d') k = series (metrics d) k"
    using assms(1) by (simp add: d' series_other)
  have rest: "(\<forall>i<length (metrics d). name (metrics d ! i) \<noteq> s \<longrightarrow>
            metrics d' ! i = metrics d ! i) \<and>
         map name (metrics d') =
           (case series (metrics d) s of None \<Rightarrow> map name (metrics d) @ [s]
            | Some m \<Rightarrow> map name (metrics d)) \<and>
         (series (metrics d) s = None \<longrightarrow> metrics d' = metrics d @ [as_state u])"
  proof (cases "findIndex (\<lambda>m. name m = name u) (metrics d)")
    case None
    with assms(1) show ?thesis
      by (simp add: d' setMetrics_updater_def series_def nth_append as_state_def)
  next
    case (Some i)
    from findIndex_Some[OF Some]
    have i: "i < length (metrics d)" "name (metrics d ! i) = name u"
      by auto
    have "map name ((metrics d)[i := with_previous u (mvalue (metrics d ! i))])
        = map name (metrics d)"
      using i by (simp add: map_update with_previous_def list_update_same_conv)
    with Some assms(1) i show ?thesis
      by (auto simp: d' setMetrics_updater_def series_def nth_list_update)
  qed
  from hist rd ser rest show ?thesis by blast
qed

section \<open>Properties of the connection manager\<close>

lemmas manager_defs = connect_def doConnect_def setState_def onopen_def onmessage_def
  onclose_def onerror_def ws_close_def disconnect_def onMessage_def ready_def set_ready_def
  ws_is_open_def live_def falsy_def fresh_def MAX_RETRIES_def RETRY_INTERVAL_MS_def
  dashboard_url_def digit_char_def string_of_nat.simps Let_def

lemma sample_connected_reached:
  "run (fresh c) [Connect 1 ''tok'', WsOpen 0] = Some (sample_connected c None)"
  by (simp add: manager_defs sample_connected_def)

lemma opened_append: "opened (xs @ ys) = opened xs @ opened ys"
  by (induction xs rule: opened.induct) auto

lemma scheduled_append: "scheduled (xs @ ys) = scheduled xs @ scheduled ys"
  by (induction xs rule: scheduled.induct) auto

lemma dashboard_url_truthy: "\<not> falsy (Some (dashboard_url dashboardId))"
  by (simp add: falsy_def dashboard_url_def)

lemma run_two: "run w [a, b] = Some w1 \<Longrightarrow> run w (a # b # es) = run w1 es"
  by (auto split: option.splits)

lemma close_step:
  assumes "live w j"
  shows "step w (WsClose j code) = Some (onclose code (set_ready j CLOSED w))"
  using assms by simp

lemma retry_round:
  assumes "live w j" and "c \<noteq> 1000" and "retries w < MAX_RETRIES"
    and "\<not> falsy (url w)" and "\<not> falsy (token w)" and "timers w = []"
  shows "\<exists>w' u. run w [WsClose j c, Timeout 0] = Some w' \<and>
           retries w' = retries w + 1 \<and> url w' = url w \<and> token w' = token w \<and>
           timers w' = [] \<and> length (sockets w') = length (sockets w) + 1 \<and>
           live w' (length (sockets w)) \<and>
           effects w' = effects w @
             [SetTimeout (RETRY_INTERVAL_MS * 2 ^ (retries w + 1)), NewWebSocket u]"
  using assms
  by (simp add: onclose_def doConnect_def setState_def set_ready_def live_def ready_def
      Let_def nth_append)

lemma last_retry:
  assumes "live w j" and "c \<noteq> 1000" and "retries w < MAX_RETRIES"
    and "\<not> falsy (url w)" and "\<not> falsy (token w)" and "timers w = []"
  shows "\<exists>w'. run w [WsClose j c] = Some w' \<and>
           retries w' = retries w + 1 \<and> url w' = url w \<and> token w' = token w \<and>
           timers w' = [RETRY_INTERVAL_MS * 2 ^ (retries w + 1)] \<and>
           length (sockets w') = length (sockets w) \<and>
           connectionState w' = Connecting \<and>
           effects w' = effects w @ [SetTimeout (RETRY_INTERVAL_MS * 2 ^ (retries w + 1))]"
  using assms
  by (simp add: onclose_def setState_def set_ready_def live_def ready_def Let_def)

lemma give_up_round:
  assumes "timers w = [d]" and "\<not> falsy (url w)" and "\<not> falsy (token w)"
    and "retries w = MAX_RETRIES"
  shows "\<exists>w' u. run w [Timeout 0, WsClose (length (sockets w)) c] = Some w' \<and>
           connectionState w' = Disconnected \<and> timers w' = [] \<and>
           retries w' = MAX_RETRIES \<and> effects w' = effects w @ [NewWebSocket u]"
  using assms
  by (simp add: onclose_def doConnect_def setState_def set_ready_def live_def ready_def
      Let_def nth_append)

lemma connect_not_open:
  assumes "\<not> ws_is_open w" and "tok \<noteq> []"
  shows "connect dashboardId tok w =
     w\<lparr>url := Some (dashboard_url dashboardId), token := Some tok,
       retries := 0, connectionState := Connecting, ws := Some (length (sockets w)),
       sockets := sockets w @
         [\<lparr>ws_url = dashboard_url dashboardId @ ''?token='' @ tok, readyState = CONNECTING\<rparr>],
       effects := effects w @ [NewWebSocket (dashboard_url dashboardId @ ''?token='' @ tok)]\<rparr>"
  using assms dashboard_url_truthy[of dashboardId]
  by (simp add: connect_def doConnect_def setState_def falsy_def Let_def)

lemma step_without_credential:
  assumes "falsy (token w)" and "\<not> valid_connect e" and "step w e = Some w'"
  shows "falsy (token w') \<and> length (sockets w') = length (sockets w) \<and>
         opened (effects w') = opened (effects w)"
proof (cases e)
  case (Connect dashboardId tok)
  with assms show ?thesis
    by (auto simp: connect_def doConnect_def setState_def falsy_def split: if_splits)
next
  case Disconnect
  with assms show ?thesis
    by (auto simp: disconnect_def ws_close_def set_ready_def setState_def Let_def
        opened_append split: option.splits if_splits)
next
  case (OnMessage callback)
  with assms show ?thesis by (auto simp: onMessage_def)
next
  case (WsOpen i)
  with assms show ?thesis
    by (auto simp: onopen_def set_ready_def setState_def split: if_splits)
next
  case (WsMessage i d)
  with assms show ?thesis
    by (auto simp: onmessage_def split: if_splits option.splits)
next
  case (WsError i)
  with assms show ?thesis
    by (auto simp: onerror_def setState_def split: if_splits)
next
  case (WsClose i code)
  with assms show ?thesis
    by (auto simp: onclose_def set_ready_def setState_def Let_def opened_append
        split: if_splits)
next
  case (Timeout k)
  with assms show ?thesis
    by (auto simp: doConnect_def setState_def split: if_splits)
qed

lemma run_without_credential:
  "falsy (token w) \<Longrightarrow> list_all (\<lambda>e. \<not> valid_connect e) evs \<Longrightarrow> run w evs = Some w' \<Longrightarrow>
     falsy (token w') \<and> length (sockets w') = length (sockets w) \<and>
     opened (effects w') = opened (effects w)"
proof (induction evs arbitrary: w)
  case Nil
  then show ?case by simp
next
  case (Cons e evs)
  from Cons.prems obtain w1 where w1: "step w e = Some w1" "run w1 evs = Some w'"
    by (auto split: option.splits)
  from Cons.prems have e: "\<not> valid_connect e" and evs: "list_all (\<lambda>e. \<not> valid_connect e) evs"
    by auto
  from step_without_credential[OF Cons.prems(1) e w1(1)]
  have s: "falsy (token w1)" "length (sockets w1) = length (sockets w)"
    "opened (effects w1) = opened (effects w)"
    by auto
  from Cons.IH[OF s(1) evs w1(2)] s show ?case by simp
qed

text \<open>
  Claim C5. A close event is handled on every transport object that is not yet closed.
  With code 1000 the manager moves to \<open>Disconnected\<close> whatever the retry counter is,
  and registers no timer (the pending timers, the calls made to the browser and the
  counter are as before). With any other code and the counter below the maximum it
  takes the retry path: the counter is incremented, one timer is registered with delay
  \<open>RETRY_INTERVAL_MS * 2 ^ retries\<close> (the incremented counter), and the state is
  \<open>Connecting\<close>.
\<close>

theorem close_event:
  assumes "live w i"
  shows "\<exists>w'. step w (WsClose i code) = Some w' \<and>
           (if code \<noteq> 1000 \<and> retries w < MAX_RETRIES
            then connectionState w' = Connecting \<and> retries w' = retries w + 1 \<and>
                 timers w' = timers w @ [RETRY_INTERVAL_MS * 2 ^ (retries w + 1)] \<and>
                 effects w' = effects w @ [SetTimeout (RETRY_INTERVAL_MS * 2 ^ (retries w + 1))]
            else connectionState w' = Disconnected \<and> retries w' = retries w \<and>
                 timers w' = timers w \<and> effects w' = effects w)"
  using assms
  by (simp add: onclose_def setState_def set_ready_def live_def ready_def Let_def)

theorem close_event_witness:
  "live (sample_connected () None) 0 \<and>
   (\<exists>w'. step (sample_connected () None) (WsClose 0 1000) = Some w' \<and>
      connectionState w' = Disconnected \<and> timers w' = [] \<and> retries w' = 0) \<and>
   (\<exists>w'. step (sample_connected () None) (WsClose 0 1006) = Some w' \<and>
      connectionState w' = Connecting \<and> timers w' = [2000] \<and> retries w' = 1)"
  using close_event[of "sample_connected () None" 0 1000]
    close_event[of "sample_connected () None" 0 1006]
  by (simp add: sample_connected_def live_def ready_def MAX_RETRIES_def RETRY_INTERVAL_MS_def)

text \<open>
  Claim C9. An inbound message whose payload does not parse is dropped: the handler
  returns the state it was given, so the callback is not invoked, the consumer's state
  (the reconciled table, when the dashboard is the consumer), the connection state and
  everything else are unchanged, and the message event has a successor, which is that
  same state: nothing is thrown.
\<close>

theorem malformed_payload_dropped:
  assumes "JSON_parse d = None"
  shows "onmessage d w = w \<and>
         (ready w i = Some OPEN \<longrightarrow> step w (WsMessage i d) = Some w)"
  using assms by (simp add: onmessage_def)

theorem malformed_payload_dropped_witness:
  "JSON_parse Unparsable = None \<and>
   step (sample_connected (Inr (seed [mk_metric ''cpu'' 10 ''T0''])) (Some dashboard_callback))
        (WsMessage 0 Unparsable)
     = Some (sample_connected (Inr (seed [mk_metric ''cpu'' 10 ''T0''])) (Some dashboard_callback))"
  using malformed_payload_dropped[of Unparsable
      "sample_connected (Inr (seed [mk_metric ''cpu'' 10 ''T0''])) (Some dashboard_callback)" 0]
  by (simp add: sample_connected_def ready_def)

text \<open>
  Claim C2, as stated, fails. From a connected session with retry counter zero, five
  consecutive closures with code 1006 (each new transport closing before it opens)
  leave the manager in \<open>Connecting\<close> with a timer of 32000 ms pending, and five delays
  have been registered, not four.
\<close>

theorem fifth_closure_still_retries:
  "connectionState (sample_connected () None) = Connected \<and>
   retries (sample_connected () None) = 0 \<and>
   map_option connectionState (run (sample_connected () None)
     [WsClose 0 1006, Timeout 0, WsClose 1 1006, Timeout 0, WsClose 2 1006, Timeout 0,
      WsClose 3 1006, Timeout 0, WsClose 4 1006]) = Some Connecting \<and>
   map_option timers (run (sample_connected () None)
     [WsClose 0 1006, Timeout 0, WsClose 1 1006, Timeout 0, WsClose 2 1006, Timeout 0,
      WsClose 3 1006, Timeout 0, WsClose 4 1006]) = Some [32000] \<and>
   map_option (scheduled \<circ> effects) (run (sample_connected () None)
     [WsClose 0 1006, Timeout 0, WsClose 1 1006, Timeout 0, WsClose 2 1006, Timeout 0,
      WsClose 3 1006, Timeout 0, WsClose 4 1006]) = Some [2000, 4000, 8000, 16000, 32000]"
  by (simp add: manager_defs sample_connected_def)

text \<open>
  Claim C2, amended. From a connected session with retry counter zero, let the session
  and then each transport opened by a reconnect close with a code other than 1000,
  none of them opening. The first five closures are retried: after the fifth the
  manager is \<open>Connecting\<close> with one timer pending, and the delays registered so far
  are \<open>RETRY_INTERVAL_MS * 2 ^ k\<close> for \<open>k = 1, \<dots>, 5\<close>. The sixth closure
  exhausts the budget: the manager is \<open>Disconnected\<close>, no timer is pending and none
  was registered after the fifth.
\<close>

theorem sixth_closure_exhausts_retries:
  assumes start: "connectionState w = Connected" "retries w = 0" "ws w = Some i"
      "ready w i = Some OPEN" "\<not> falsy (url w)" "\<not> falsy (token w)" "timers w = []"
    and n: "n = length (sockets w)"
    and codes: "c1 \<noteq> 1000" "c2 \<noteq> 1000" "c3 \<noteq> 1000" "c4 \<noteq> 1000" "c5 \<noteq> 1000" "c6 \<noteq> 1000"
  shows "\<exists>w5 w6 xs ys.
           run w [WsClose i c1, Timeout 0, WsClose n c2, Timeout 0, WsClose (n + 1) c3,
                  Timeout 0, WsClose (n + 2) c4, Timeout 0, WsClose (n + 3) c5] = Some w5 \<and>
           connectionState w5 = Connecting \<and>
           timers w5 = [RETRY_INTERVAL_MS * 2 ^ 5] \<and>
           effects w5 = effects w @ xs \<and>
           scheduled xs = map (\<lambda>k. RETRY_INTERVAL_MS * 2 ^ k) [1, 2, 3, 4, 5] \<and>
           run w5 [Timeout 0, WsClose (n + 4) c6] = Some w6 \<and>
           connectionState w6 = Disconnected \<and> timers w6 = [] \<and>
           effects w6 = effects w5 @ ys \<and> scheduled ys = []"
proof -
  have l0: "live w i" using start(4) by (simp add: live_def)
  have r0: "retries w < MAX_RETRIES" using start(2) by (simp add: MAX_RETRIES_def)
  from retry_round[OF l0 codes(1) r0 start(5,6,7)] obtain w1 u1 where
    w1: "run w [WsClose i c1, Timeout 0] = Some w1" "retries w1 = 1" "url w1 = url w"
      "token w1 = token w" "timers w1 = []" "length (sockets w1) = n + 1" "live w1 n"
      "effects w1 = effects w @ [SetTimeout (RETRY_INTERVAL_MS * 2 ^ 1), NewWebSocket u1]"
    using start(2) n by auto
  have r1: "retries w1 < MAX_RETRIES" using w1(2) by (simp add: MAX_RETRIES_def)
  from retry_round[OF w1(7) codes(2) r1] w1 start obtain w2 u2 where
    w2: "run w1 [WsClose n c2, Timeout 0] = Some w2" "retries w2 = 2" "url w2 = url w"
      "token w2 = token w" "timers w2 = []" "length (sockets w2) = n + 2" "live w2 (n + 1)"
      "effects w2 = effects w1 @ [SetTimeout (RETRY_INTERVAL_MS * 2 ^ 2), NewWebSocket u2]"
    by auto
  have r2: "retries w2 < MAX_RETRIES" using w2(2) by (simp add: MAX_RETRIES_def)
  from retry_round[OF w2(7) codes(3) r2] w2 start obtain w3 u3 where
    w3: "run w2 [WsClose (n + 1) c3, Timeout 0] = Some w3" "retries w3 = 3" "url w3 = url w"
      "token w3 = token w" "timers w3 = []" "length (sockets w3) = n + 3" "live w3 (n + 2)"
      "effects w3 = effects w2 @ [SetTimeout (RETRY_INTERVAL_MS * 2 ^ 3), NewWebSocket u3]"
    by auto
  have r3: "retries w3 < MAX_RETRIES" using w3(2) by (simp add: MAX_RETRIES_def)
  from retry_round[OF w3(7) codes(4) r3] w3 start obtain w4 u4 where
    w4: "run w3 [WsClose (n + 2) c4, Timeout 0] = Some w4" "retries w4 = 4" "url w4 = url w"
      "token w4 = token w" "timers w4 = []" "length (sockets w4) = n + 4" "live w4 (n + 3)"
      "effects w4 = effects w3 @ [SetTimeout (RETRY_INTERVAL_MS * 2 ^ 4), NewWebSocket u4]"
    by auto
  have r4: "retries w4 < MAX_RETRIES" using w4(2) by (simp add: MAX_RETRIES_def)
  from last_retry[OF w4(7) codes(5) r4] w4 start obtain w5 where
    w5: "run w4 [WsClose (n + 3) c5] = Some w5" "retries w5 = 5" "url w5 = url w"
      "token w5 = token w" "timers w5 = [RETRY_INTERVAL_MS * 2 ^ 5]"
      "length (sockets w5) = n + 4" "connectionState w5 = Connecting"
      "effects w5 = effects w4 @ [SetTimeout (RETRY_INTERVAL_MS * 2 ^ 5)]"
    by auto
  have r5: "retries w5 = MAX_RETRIES" using w5(2) by (simp add: MAX_RETRIES_def)
  from give_up_round[OF w5(5) _ _ r5, of c6] w5 start obtain w6 u6 where
    w6: "run w5 [Timeout 0, WsClose (n + 4) c6] = Some w6" "connectionState w6 = Disconnected"
      "timers w6 = []" "effects w6 = effects w5 @ [NewWebSocket u6]"
    by auto
  let ?xs = "[SetTimeout (RETRY_INTERVAL_MS * 2 ^ 1), NewWebSocket u1,
              SetTimeout (RETRY_INTERVAL_MS * 2 ^ 2), NewWebSocket u2,
              SetTimeout (RETRY_INTERVAL_MS * 2 ^ 3), NewWebSocket u3,
              SetTimeout (RETRY_INTERVAL_MS * 2 ^ 4), NewWebSocket u4,
              SetTimeout (RETRY_INTERVAL_MS * 2 ^ 5)]"
  have run5: "run w [WsClose i c1, Timeout 0, WsClose n c2, Timeout 0, WsClose (n + 1) c3,
                  Timeout 0, WsClose (n + 2) c4, Timeout 0, WsClose (n + 3) c5] = Some w5"
    by (simp only: run_two[OF w1(1)] run_two[OF w2(1)] run_two[OF w3(1)] run_two[OF w4(1)]
        w5(1))
  have eff5: "effects w5 = effects w @ ?xs"
    by (simp add: w5(8) w4(8) w3(8) w2(8) w1(8))
  have sched: "scheduled ?xs = map (\<lambda>k. RETRY_INTERVAL_MS * 2 ^ k) [1, 2, 3, 4, 5]"
    by simp
  have sched6: "scheduled [NewWebSocket u6] = []" by simp
  from run5 w5(7) w5(5) eff5 sched w6 sched6 show ?thesis by blast
qed

theorem sixth_closure_exhausts_retries_witness:
  "connectionState (sample_connected () None) = Connected \<and>
   retries (sample_connected () None) = 0 \<and>
   (\<exists>w5 w6.
      run (sample_connected () None)
        [WsClose 0 1006, Timeout 0, WsClose 1 1001, Timeout 0, WsClose 2 1011, Timeout 0,
         WsClose 3 1006, Timeout 0, WsClose 4 1012] = Some w5 \<and>
      connectionState w5 = Connecting \<and> timers w5 = [32000] \<and>
      run w5 [Timeout 0, WsClose 5 1006] = Some w6 \<and>
      connectionState w6 = Disconnected \<and> timers w6 = [])"
proof -
  have inst: "\<exists>w5 w6 xs ys.
           run (sample_connected () None)
             [WsClose 0 1006, Timeout 0, WsClose 1 1001, Timeout 0, WsClose (1 + 1) 1011,
              Timeout 0, WsClose (1 + 2) 1006, Timeout 0, WsClose (1 + 3) 1012] = Some w5 \<and>
           connectionState w5 = Connecting \<and>
           timers w5 = [RETRY_INTERVAL_MS * 2 ^ 5] \<and>
           effects w5 = effects (sample_connected () None) @ xs \<and>
           scheduled xs = map (\<lambda>k. RETRY_INTERVAL_MS * 2 ^ k) [1, 2, 3, 4, 5] \<and>
           run w5 [Timeout 0, WsClose (1 + 4) 1006] = Some w6 \<and>
           connectionState w6 = Disconnected \<and> timers w6 = [] \<and>
           effects w6 = effects w5 @ ys \<and> scheduled ys = []"
    by (rule sixth_closure_exhausts_retries[where w = "sample_connected () None" and i = 0])
      (simp_all add: sample_connected_def ready_def falsy_def)
  have e: "(1::nat) + 1 = 2" "(1::nat) + 2 = 3" "(1::nat) + 3 = 4" "(1::nat) + 4 = 5"
    by simp_all
  have d: "RETRY_INTERVAL_MS * 2 ^ 5 = 32000"
    by (simp add: RETRY_INTERVAL_MS_def)
  from inst[unfolded e d] obtain w5 w6 where
    "run (sample_connected () None)
        [WsClose 0 1006, Timeout 0, WsClose 1 1001, Timeout 0, WsClose 2 1011, Timeout 0,
         WsClose 3 1006, Timeout 0, WsClose 4 1012] = Some w5"
    "connectionState w5 = Connecting" "timers w5 = [32000]"
    "run w5 [Timeout 0, WsClose 5 1006] = Some w6"
    "connectionState w6 = Disconnected" "timers w6 = []"
    by blast
  moreover have "connectionState (sample_connected () None) = Connected \<and>
      retries (sample_connected () None) = 0"
    by (simp add: sample_connected_def)
  ultimately show ?thesis by blast
qed

text \<open>
  Claim C3, as stated, fails. With the session of dashboard 1 open, \<^verbatim>\<open>connect(2, "tok")\<close>
  changes nothing: the scope, the state and the calls made to the browser are as
  before. And on a manager whose transport is still connecting, a second \<^verbatim>\<open>connect\<close>
  opens a second transport without closing the first.
\<close>

theorem connect_keeps_open_session:
  "map_option url (run (sample_connected () None) [Connect 2 ''tok''])
     = Some (Some ''ws://localhost:8000/api/v1/ws/dashboard/1'') \<and>
   map_option connectionState (run (sample_connected () None) [Connect 2 ''tok''])
     = Some Connected \<and>
   map_option effects (run (sample_connected () None) [Connect 2 ''tok''])
     = Some [NewWebSocket ''ws://localhost:8000/api/v1/ws/dashboard/1?token=tok''] \<and>
   map_option sockets (run (fresh ()) [Connect 1 ''tok'', Connect 2 ''tok''])
     = Some [\<lparr>ws_url = ''ws://localhost:8000/api/v1/ws/dashboard/1?token=tok'',
               readyState = CONNECTING\<rparr>,
             \<lparr>ws_url = ''ws://localhost:8000/api/v1/ws/dashboard/2?token=tok'',
               readyState = CONNECTING\<rparr>] \<and>
   map_option effects (run (fresh ()) [Connect 1 ''tok'', Connect 2 ''tok''])
     = Some [NewWebSocket ''ws://localhost:8000/api/v1/ws/dashboard/1?token=tok'',
             NewWebSocket ''ws://localhost:8000/api/v1/ws/dashboard/2?token=tok'']"
  by (simp add: manager_defs sample_connected_def)

text \<open>
  Claim C3, amended. \<^verbatim>\<open>connect\<close> changes nothing when the manager's current
  transport is open, whatever scope is requested. In every other state, and with a
  non-empty credential, it stores the requested scope, resets the retry counter to
  zero, moves to \<open>Connecting\<close> and opens one new transport for the requested scope,
  which becomes the current one; the transports that exist already are left as they
  are, and so are the pending timers.
\<close>

theorem connect_effect:
  "(ws_is_open w \<longrightarrow> connect dashboardId tok w = w) \<and>
   (\<not> ws_is_open w \<and> tok \<noteq> [] \<longrightarrow>
      url (connect dashboardId tok w) = Some (dashboard_url dashboardId) \<and>
      token (connect dashboardId tok w) = Some tok \<and>
      retries (connect dashboardId tok w) = 0 \<and>
      connectionState (connect dashboardId tok w) = Connecting \<and>
      ws (connect dashboardId tok w) = Some (length (sockets w)) \<and>
      sockets (connect dashboardId tok w) =
        sockets w @ [\<lparr>ws_url = dashboard_url dashboardId @ ''?token='' @ tok,
                      readyState = CONNECTING\<rparr>] \<and>
      effects (connect dashboardId tok w) =
        effects w @ [NewWebSocket (dashboard_url dashboardId @ ''?token='' @ tok)] \<and>
      timers (connect dashboardId tok w) = timers w)"
  using dashboard_url_truthy[of dashboardId]
  by (simp add: connect_def doConnect_def setState_def falsy_def Let_def)

theorem connect_effect_witness:
  "ws_is_open (sample_connected () None) \<and>
   connect 2 ''tok'' (sample_connected () None) = sample_connected () None \<and>
   \<not> ws_is_open (fresh ()) \<and>
   connectionState (connect 2 ''tok'' (fresh ())) = Connecting \<and>
   retries (connect 2 ''tok'' (fresh ())) = 0 \<and>
   ws (connect 2 ''tok'' (fresh ())) = Some 0 \<and>
   sockets (connect 2 ''tok'' (fresh ())) =
     [\<lparr>ws_url = ''ws://localhost:8000/api/v1/ws/dashboard/2?token=tok'',
       readyState = CONNECTING\<rparr>]"
  using connect_effect[of "sample_connected () None" 2 "''tok''"]
    connect_effect[of "fresh ()" 2 "''tok''"]
  by (simp add: ws_is_open_def ready_def sample_connected_def fresh_def dashboard_url_def
      string_of_nat.simps digit_char_def)

text \<open>
  Claim C6 at a concrete input. The session closes with code 1006, which registers a
  reconnect timer of 2000 ms; \<^verbatim>\<open>disconnect()\<close> is called while that timer is pending.
  The manager is \<open>Disconnected\<close>, but the timer is still pending; when it fires,
  \<^verbatim>\<open>_doConnect\<close> opens a new transport, and its open event moves the manager to
  \<open>Connected\<close>, without any call of \<^verbatim>\<open>connect\<close>.
\<close>

theorem reconnect_after_disconnect:
  "map_option connectionState (run (sample_connected () None) [WsClose 0 1006, Disconnect])
     = Some Disconnected \<and>
   map_option timers (run (sample_connected () None) [WsClose 0 1006, Disconnect])
     = Some [2000] \<and>
   map_option connectionState
       (run (sample_connected () None) [WsClose 0 1006, Disconnect, Timeout 0, WsOpen 1])
     = Some Connected \<and>
   map_option ws
       (run (sample_connected () None) [WsClose 0 1006, Disconnect, Timeout 0, WsOpen 1])
     = Some (Some 1) \<and>
   map_option sockets
       (run (sample_connected () None) [WsClose 0 1006, Disconnect, Timeout 0, WsOpen 1])
     = Some [\<lparr>ws_url = ''ws://localhost:8000/api/v1/ws/dashboard/1?token=tok'',
               readyState = CLOSED\<rparr>,
             \<lparr>ws_url = ''ws://localhost:8000/api/v1/ws/dashboard/1?token=tok'',
               readyState = OPEN\<rparr>]"
  by (simp add: manager_defs sample_connected_def)

text \<open>
  Claim C7, as stated, fails. After \<^verbatim>\<open>connect(1, "tok")\<close> and \<^verbatim>\<open>connect(2, "tok")\<close>
  with no event between them, the open event of the first transport moves the manager
  to \<open>Connected\<close> while the second is still connecting; once the second opens, both
  transports are open; and a \<^verbatim>\<open>metric_update\<close> arriving on the first transport is
  delivered to the dashboard's callback, which adds the metric to its table.
\<close>

theorem stale_handle_delivers:
  "map_option connectionState (run (fresh (Inr (seed [])))
       [OnMessage dashboard_callback, Connect 1 ''tok'', Connect 2 ''tok'', WsOpen 0])
     = Some Connected \<and>
   map_option sockets (run (fresh (Inr (seed [])))
       [OnMessage dashboard_callback, Connect 1 ''tok'', Connect 2 ''tok'', WsOpen 0])
     = Some [\<lparr>ws_url = ''ws://localhost:8000/api/v1/ws/dashboard/1?token=tok'',
               readyState = OPEN\<rparr>,
             \<lparr>ws_url = ''ws://localhost:8000/api/v1/ws/dashboard/2?token=tok'',
               readyState = CONNECTING\<rparr>] \<and>
   map_option sockets (run (fresh (Inr (seed [])))
       [OnMessage dashboard_callback, Connect 1 ''tok'', Connect 2 ''tok'', WsOpen 0, WsOpen 1])
     = Some [\<lparr>ws_url = ''ws://localhost:8000/api/v1/ws/dashboard/1?token=tok'',
               readyState = OPEN\<rparr>,
             \<lparr>ws_url = ''ws://localhost:8000/api/v1/ws/dashboard/2?token=tok'',
               readyState = OPEN\<rparr>] \<and>
   map_option (map_sum id metrics \<circ> consumer) (run (fresh (Inr (seed [])))
       [OnMessage dashboard_callback, Connect 1 ''tok'', Connect 2 ''tok'', WsOpen 0, WsOpen 1,
        WsMessage 0 (Parsable \<lparr>mtype = ''metric_update'', data = mk_metric ''cpu'' 10 ''T0''\<rparr>)])
     = Some (Inr [as_state (mk_metric ''cpu'' 10 ''T0'')])"
  by (simp add: manager_defs dashboard_callback_def history_defs setMetrics_updater_def)

text \<open>
  Claim C7, amended. After two calls of \<^verbatim>\<open>connect\<close> for different scopes with no
  event between them (on a manager whose transport is not open), the current
  transport and the stored scope are the second call's, both transports are
  connecting, and a later reconnect opens a transport for the second scope. The first
  transport is not cut off from the manager: its open event moves the manager to
  \<open>Connected\<close> while the second is still connecting, both transports can be open
  together, and a message that parses, arriving on the first, is handed to the
  registered callback.
\<close>

theorem superseded_handle_stays_live:
  assumes "\<not> ws_is_open w" and "tok1 \<noteq> []" and "tok2 \<noteq> []" and "n = length (sockets w)"
    and "w2 = connect id2 tok2 (connect id1 tok1 w)"
  shows "ws w2 = Some (n + 1) \<and> url w2 = Some (dashboard_url id2) \<and> token w2 = Some tok2 \<and>
         connectionState w2 = Connecting \<and>
         sockets w2 = sockets w @
           [\<lparr>ws_url = dashboard_url id1 @ ''?token='' @ tok1, readyState = CONNECTING\<rparr>,
            \<lparr>ws_url = dashboard_url id2 @ ''?token='' @ tok2, readyState = CONNECTING\<rparr>] \<and>
         (\<exists>w3. step w2 (WsOpen n) = Some w3 \<and> connectionState w3 = Connected \<and>
               ws w3 = Some (n + 1) \<and> ready w3 (n + 1) = Some CONNECTING) \<and>
         (\<exists>w4. run w2 [WsOpen n, WsOpen (n + 1)] = Some w4 \<and>
               ready w4 n = Some OPEN \<and> ready w4 (n + 1) = Some OPEN \<and>
               (\<forall>m. \<exists>w5. step w4 (WsMessage n (Parsable m)) = Some w5 \<and>
                  consumer w5 = (case onMessageCallback w of None \<Rightarrow> consumer w
                                 | Some callback \<Rightarrow> callback m (consumer w)))) \<and>
         (\<exists>w6. run w2 [WsClose (n + 1) 1006, Timeout 0] = Some w6 \<and>
               map ws_url (drop (n + 2) (sockets w6)) =
                 [dashboard_url id2 @ ''?token='' @ tok2])"
proof -
  let ?w1 = "connect id1 tok1 w"
  have w1: "?w1 = w\<lparr>url := Some (dashboard_url id1), token := Some tok1,
      retries := 0, connectionState := Connecting, ws := Some n,
      sockets := sockets w @
        [\<lparr>ws_url = dashboard_url id1 @ ''?token='' @ tok1, readyState = CONNECTING\<rparr>],
      effects := effects w @ [NewWebSocket (dashboard_url id1 @ ''?token='' @ tok1)]\<rparr>"
    unfolding assms(4) by (rule connect_not_open[OF assms(1,2)])
  have not_open: "\<not> ws_is_open ?w1"
    unfolding w1 using assms(4) by (simp add: ws_is_open_def ready_def)
  have "connect id2 tok2 ?w1 = ?w1\<lparr>url := Some (dashboard_url id2), token := Some tok2,
      retries := 0, connectionState := Connecting, ws := Some (length (sockets ?w1)),
      sockets := sockets ?w1 @
        [\<lparr>ws_url = dashboard_url id2 @ ''?token='' @ tok2, readyState = CONNECTING\<rparr>],
      effects := effects ?w1 @ [NewWebSocket (dashboard_url id2 @ ''?token='' @ tok2)]\<rparr>"
    by (rule connect_not_open[OF not_open assms(3)])
  then have w2: "w2 = w\<lparr>url := Some (dashboard_url id2), token := Some tok2,
      retries := 0, connectionState := Connecting, ws := Some (n + 1),
      sockets := sockets w @
        [\<lparr>ws_url = dashboard_url id1 @ ''?token='' @ tok1, readyState = CONNECTING\<rparr>,
         \<lparr>ws_url = dashboard_url id2 @ ''?token='' @ tok2, readyState = CONNECTING\<rparr>],
      effects := effects w @ [NewWebSocket (dashboard_url id1 @ ''?token='' @ tok1),
         NewWebSocket (dashboard_url id2 @ ''?token='' @ tok2)]\<rparr>"
    unfolding assms(5) w1 using assms(4) by simp
  have a: "ws w2 = Some (n + 1) \<and> url w2 = Some (dashboard_url id2) \<and> token w2 = Some tok2 \<and>
         connectionState w2 = Connecting \<and>
         sockets w2 = sockets w @
           [\<lparr>ws_url = dashboard_url id1 @ ''?token='' @ tok1, readyState = CONNECTING\<rparr>,
            \<lparr>ws_url = dashboard_url id2 @ ''?token='' @ tok2, readyState = CONNECTING\<rparr>]"
    by (simp add: w2)
  have b: "\<exists>w3. step w2 (WsOpen n) = Some w3 \<and> connectionState w3 = Connected \<and>
               ws w3 = Some (n + 1) \<and> ready w3 (n + 1) = Some CONNECTING"
    using assms(4)
    by (simp add: w2 ready_def set_ready_def onopen_def setState_def nth_append)
  have c: "\<exists>w4. run w2 [WsOpen n, WsOpen (n + 1)] = Some w4 \<and>
               ready w4 n = Some OPEN \<and> ready w4 (n + 1) = Some OPEN \<and>
               (\<forall>m. \<exists>w5. step w4 (WsMessage n (Parsable m)) = Some w5 \<and>
                  consumer w5 = (case onMessageCallback w of None \<Rightarrow> consumer w
                                 | Some callback \<Rightarrow> callback m (consumer w)))"
    using assms(4)
    by (simp add: w2 ready_def set_ready_def onopen_def setState_def nth_append onmessage_def
        split: option.splits)
  have d: "\<exists>w6. run w2 [WsClose (n + 1) 1006, Timeout 0] = Some w6 \<and>
               map ws_url (drop (n + 2) (sockets w6)) =
                 [dashboard_url id2 @ ''?token='' @ tok2]"
    using assms(3,4) dashboard_url_truthy[of id2]
    by (simp add: w2 ready_def set_ready_def onclose_def doConnect_def setState_def live_def
        nth_append falsy_def Let_def MAX_RETRIES_def)
  from a b c d show ?thesis by blast
qed

theorem superseded_handle_stays_live_witness:
  "\<not> ws_is_open (onMessage dashboard_callback (fresh (Inr (seed [])))) \<and>
   ws (connect 2 ''tok'' (connect 1 ''tok'' (onMessage dashboard_callback (fresh (Inr (seed []))))))
     = Some 1 \<and>
   (\<exists>w3. step (connect 2 ''tok'' (connect 1 ''tok''
               (onMessage dashboard_callback (fresh (Inr (seed [])))))) (WsOpen 0) = Some w3 \<and>
      connectionState w3 = Connected \<and> ws w3 = Some 1 \<and> ready w3 1 = Some CONNECTING)"
  using superseded_handle_stays_live[of "onMessage dashboard_callback (fresh (Inr (seed [])))"
      "''tok''" "''tok''" 0
      "connect 2 ''tok'' (connect 1 ''tok'' (onMessage dashboard_callback (fresh (Inr (seed [])))))"
      2 1]
  by (simp add: ws_is_open_def onMessage_def fresh_def)

text \<open>
  Claim C8, as stated, fails. With a session open, \<^verbatim>\<open>connect(2, "")\<close> returns at the
  first guard: the manager stays \<open>Connected\<close> with the credential it had.
\<close>

theorem connect_without_credential_when_open:
  "map_option connectionState (run (sample_connected () None) [Connect 2 ''''])
     = Some Connected \<and>
   map_option token (run (sample_connected () None) [Connect 2 '''']) = Some (Some ''tok'')"
  by (simp add: manager_defs sample_connected_def)

text \<open>
  Claim C8, amended. On a manager whose current transport is not open, \<^verbatim>\<open>connect\<close>
  with an empty credential ends in \<open>Error\<close>; it registers no timer and opens no
  transport. From then on, whatever timers fire, whatever events the existing
  transports deliver and whatever calls are made, no transport is opened until
  \<^verbatim>\<open>connect\<close> is called with a non-empty credential. The guard of \<^verbatim>\<open>_doConnect\<close>
  itself: with the URL or the credential missing it sets \<open>Error\<close> and does nothing
  else.
\<close>

theorem missing_credential_fails:
  assumes "\<not> ws_is_open w"
  shows "connectionState (connect dashboardId [] w) = Error \<and>
         timers (connect dashboardId [] w) = timers w \<and>
         sockets (connect dashboardId [] w) = sockets w \<and>
         effects (connect dashboardId [] w) = effects w \<and>
         (\<forall>evs w'. list_all (\<lambda>e. \<not> valid_connect e) evs \<and>
              run (connect dashboardId [] w) evs = Some w' \<longrightarrow>
            length (sockets w') = length (sockets w) \<and>
            opened (effects w') = opened (effects w)) \<and>
         (\<forall>v :: 'a world. falsy (url v) \<or> falsy (token v) \<longrightarrow>
            connectionState (doConnect v) = Error \<and> timers (doConnect v) = timers v \<and>
            sockets (doConnect v) = sockets v \<and> effects (doConnect v) = effects v)"
proof -
  let ?w0 = "connect dashboardId [] w"
  have c: "?w0 = w\<lparr>url := Some (dashboard_url dashboardId), token := Some [], retries := 0,
      connectionState := Error\<rparr>"
    using assms by (simp add: connect_def doConnect_def setState_def falsy_def)
  have f: "falsy (token ?w0)" by (simp add: c falsy_def)
  have later: "length (sockets w') = length (sockets w) \<and>
      opened (effects w') = opened (effects w)"
    if "list_all (\<lambda>e. \<not> valid_connect e) evs" "run ?w0 evs = Some w'" for evs w'
    using run_without_credential[OF f that] by (simp add: c)
  have guard: "connectionState (doConnect v) = Error \<and> timers (doConnect v) = timers v \<and>
      sockets (doConnect v) = sockets v \<and> effects (doConnect v) = effects v"
    if "falsy (url v) \<or> falsy (token v)" for v :: "'a world"
    using that by (auto simp: doConnect_def setState_def)
  from later guard show ?thesis
    by (simp add: c) blast
qed

theorem missing_credential_fails_witness:
  "\<not> ws_is_open (fresh ()) \<and>
   connectionState (connect 7 [] (fresh ())) = Error \<and>
   timers (connect 7 [] (fresh ())) = [] \<and>
   sockets (connect 7 [] (fresh ())) = [] \<and>
   effects (connect 7 [] (fresh ())) = [] \<and>
   (\<exists>w'. run (connect 7 [] (fresh ())) [Disconnect, Connect 7 []] = Some w' \<and>
      length (sockets w') = 0)"
proof -
  have h: "\<not> ws_is_open (fresh ())"
    by (simp add: ws_is_open_def fresh_def)
  note t = missing_credential_fails[OF h, of 7]
  from t have now: "connectionState (connect 7 [] (fresh ())) = Error \<and>
      timers (connect 7 [] (fresh ())) = timers (fresh ()) \<and>
      sockets (connect 7 [] (fresh ())) = sockets (fresh ()) \<and>
      effects (connect 7 [] (fresh ())) = effects (fresh ())"
    by blast
  obtain w' where w': "run (connect 7 [] (fresh ())) [Disconnect, Connect 7 []] = Some w'"
    by simp
  have "list_all (\<lambda>e. \<not> valid_connect e) [Disconnect, Connect 7 []]"
    by simp
  with t w' have "length (sockets w') = length (sockets (fresh ()))"
    by blast
  with h now w' show ?thesis
    by (auto simp: fresh_def)
qed

end
